theory Spec2Isabelle
  imports Main "HOL-Library.Sublist"
begin

section \<open>Values, objects and errors\<close>

text \<open>
  The builders receive plain JavaScript objects. What they read of an object is the
  sequence of its own enumerable properties, in the order \<^verbatim>\<open>Object.keys\<close>,
  \<^verbatim>\<open>Object.values\<close> and \<^verbatim>\<open>for (let key in obj)\<close> enumerate them, which is one and
  the same order. An object is therefore an association list of keys and values in that
  order. The values are never inspected by the builders; they are only moved into the
  list of bind values.
\<close>

datatype jsval = JUndefined | JNull | JBool bool | JNum int | JStr string

type_synonym jsobject = "(string \<times> jsval) list"

text \<open>\<^verbatim>\<open>expressError.js\<close>: the only error class the builders throw, with its message.\<close>

datatype error = BadRequestError string

section \<open>Numbers in template literals\<close>

text \<open>
  \<^verbatim>\<open>`$${idx + 1}`\<close> and \<^verbatim>\<open>`$${paramCount}`\<close> print a positive integer counter in
  decimal, without sign and without leading zeros.
\<close>

definition digit_char :: "nat \<Rightarrow> char" where
  "digit_char d = ''0123456789'' ! d"

fun show_nat :: "nat \<Rightarrow> string" where
  "show_nat n = (if n < 10 then [digit_char n] else show_nat (n div 10) @ [digit_char (n mod 10)])"

declare show_nat.simps [simp del]

section \<open>helpers/sql.js\<close>

text \<open>\<^verbatim>\<open>Array.prototype.join\<close> on an array of strings.\<close>

fun join :: "string \<Rightarrow> string list \<Rightarrow> string" where
  "join sep [] = []"
| "join sep [x] = x"
| "join sep (x # y # ys) = x @ sep @ join sep (y # ys)"

text \<open>
  What the builders return: \<^verbatim>\<open>{ setCols, values }\<close> and \<^verbatim>\<open>{ sql, values }\<close>. The two
  shapes share the field \<open>values\<close>.
\<close>

record bound =
  "values" :: "jsval list"

record partial_update = bound +
  setCols :: string

record find_all = bound +
  sql :: string

text \<open>
  \<^verbatim>\<open>jsToSql[colName]\<close>: a property lookup on the table. The table is an ordinary
  object, written as an object literal by its callers \<^verbatim>\<open>Job.update\<close> (the empty table)
  and \<^verbatim>\<open>Company.update\<close> (two entries): its own properties are the entries, a partial
  map from external names to column names, and its prototype is \<^verbatim>\<open>Object.prototype\<close>.
  A name that is not an own property is looked up there, where it finds the constructor
  \<^verbatim>\<open>Object\<close>, one of the built-in methods or, through the accessor \<^verbatim>\<open>__proto__\<close>, the
  prototype object itself; any other name gives \<^verbatim>\<open>undefined\<close>.
\<close>

datatype property = Undefined | Entry string | Native_function string | Object_prototype

definition Object_prototype_methods :: "string list" where
  "Object_prototype_methods =
     [''__defineGetter__'', ''__defineSetter__'', ''hasOwnProperty'', ''__lookupGetter__'',
      ''__lookupSetter__'', ''isPrototypeOf'', ''propertyIsEnumerable'', ''toString'',
      ''valueOf'', ''toLocaleString'']"

definition get_property :: "(string \<rightharpoonup> string) \<Rightarrow> string \<Rightarrow> property" where
  "get_property obj key =
     (case obj key of
        Some c \<Rightarrow> Entry c
      | None \<Rightarrow>
          if key = ''constructor'' then Native_function ''Object''
          else if key \<in> set Object_prototype_methods then Native_function key
          else if key = ''__proto__'' then Object_prototype
          else Undefined)"

text \<open>The names that an object literal inherits, for the statements below.\<close>

definition Object_prototype_names :: "string list" where
  "Object_prototype_names = ''constructor'' # ''__proto__'' # Object_prototype_methods"

text \<open>
  What \<^verbatim>\<open>||\<close> takes for true, and what a template literal prints: a string as it is, a
  built-in function as its source text, the prototype object through its \<^verbatim>\<open>toString\<close>.
\<close>

fun truthy :: "property \<Rightarrow> bool" where
  "truthy Undefined = False"
| "truthy (Entry c) = (c \<noteq> [])"
| "truthy (Native_function n) = True"
| "truthy Object_prototype = True"

fun template_text :: "property \<Rightarrow> string" where
  "template_text Undefined = ''undefined''"
| "template_text (Entry c) = c"
| "template_text (Native_function n) = ''function '' @ n @ ''() { [native code] }''"
| "template_text Object_prototype = ''[object Object]''"

text \<open>
  \<^verbatim>\<open>jsToSql[colName] || colName\<close>: what the lookup finds, unless that is falsy, which
  \<^verbatim>\<open>undefined\<close> and the empty string are.
\<close>

definition sql_column :: "(string \<rightharpoonup> string) \<Rightarrow> string \<Rightarrow> string" where
  "sql_column jsToSql colName =
     (let found = get_property jsToSql colName in
      if truthy found then template_text found else colName)"

text \<open>
  \<^verbatim>\<open>const cols = keys.map((colName, idx) => `"${jsToSql[colName] || colName}"=$${idx + 1}`)\<close>
\<close>

definition cols :: "string list \<Rightarrow> (string \<rightharpoonup> string) \<Rightarrow> string list" where
  \<open>cols keys jsToSql =
     map (\<lambda>(idx, colName). ''"'' @ sql_column jsToSql colName @ ''"=$'' @ show_nat (idx + 1))
       (enumerate 0 keys)\<close>

definition sqlForPartialUpdate :: "jsobject \<Rightarrow> (string \<rightharpoonup> string) \<Rightarrow> error + partial_update" where
  "sqlForPartialUpdate dataToUpdate jsToSql =
     (let keys = map fst dataToUpdate in
      if length keys = 0 then Inl (BadRequestError ''No data'')
      else Inr \<lparr>values = map snd dataToUpdate, setCols = join '', '' (cols keys jsToSql)\<rparr>)"

text \<open>
  \<^verbatim>\<open>Job.update\<close> and \<^verbatim>\<open>Company.update\<close> continue the numbering themselves:
  \<^verbatim>\<open>const idIdx = "$" + (values.length + 1)\<close>.
\<close>

definition idIdx :: "jsval list \<Rightarrow> string" where
  "idIdx vs = ''$'' @ show_nat (length vs + 1)"

section \<open>models/job.js and models/company.js\<close>

text \<open>The state of the loop over the query string's keys.\<close>

record loop_state = find_all +
  startedSql :: bool
  paramCount :: nat

text \<open>\<^verbatim>\<open>sql = startedSql ? sql + " AND " : sql + " WHERE "\<close>\<close>

definition open_clause :: "loop_state \<Rightarrow> loop_state" where
  "open_clause s = s\<lparr>sql := (if startedSql s then sql s @ '' AND '' else sql s @ '' WHERE '')\<rparr>"

text \<open>
  The end of the loop body:
  \<^verbatim>\<open>startedSql = true; paramCount++; values.push(queryString[key])\<close>.
\<close>

definition loop_tail :: "loop_state \<Rightarrow> jsval \<Rightarrow> loop_state" where
  "loop_tail s v = s\<lparr>values := values s @ [v], startedSql := True, paramCount := paramCount s + 1\<rparr>"

definition init_state :: "string \<Rightarrow> loop_state" where
  "init_state base = \<lparr>values = [], sql = base, startedSql = False, paramCount = 1\<rparr>"

definition job_base_sql :: string where
  \<open>job_base_sql =
     ''SELECT id,'' @ [CHR 0x0A] @
     ''      title, '' @ [CHR 0x0A] @
     ''      salary, '' @ [CHR 0x0A] @
     ''      equity,'' @ [CHR 0x0A] @
     ''      company_handle AS "companyHandle"'' @ [CHR 0x0A] @
     ''      FROM jobs''\<close>

text \<open>
  One turn of the loop of \<^verbatim>\<open>Job.buildFindAllSQLWithQueryString\<close>. The branch of
  \<^verbatim>\<open>hasEquity\<close> leaves by \<^verbatim>\<open>continue\<close>, before the end of the body; a key that is
  none of the three falls through all branches to the end of the body.
\<close>

definition job_step :: "loop_state \<Rightarrow> string \<times> jsval \<Rightarrow> loop_state" where
  \<open>job_step s0 kv =
     (let key = fst kv; s = open_clause s0 in
      if key = ''title'' then
        loop_tail (s\<lparr>sql := sql s @ '' name ILIKE '%' || $'' @ show_nat (paramCount s) @ '' || '%'' @ [CHR 0x27]\<rparr>) (snd kv)
      else if key = ''minSalary'' then
        loop_tail (s\<lparr>sql := sql s @ '' salary >= $'' @ show_nat (paramCount s)\<rparr>) (snd kv)
      else if key = ''hasEquity'' then
        s\<lparr>sql := sql s @ '' equity > 0'', startedSql := True\<rparr>
      else loop_tail s (snd kv))\<close>

definition Job_buildFindAllSQLWithQueryString :: "jsobject \<Rightarrow> find_all" where
  "Job_buildFindAllSQLWithQueryString queryString =
     (let s = foldl job_step (init_state job_base_sql) queryString in
      \<lparr>values = values s, sql = sql s @ '' ORDER BY title''\<rparr>)"

definition company_base_sql :: string where
  \<open>company_base_sql =
     ''SELECT handle,'' @ [CHR 0x0A] @
     ''      name, '' @ [CHR 0x0A] @
     ''      description, '' @ [CHR 0x0A] @
     ''      num_employees AS "numEmployees",'' @ [CHR 0x0A] @
     ''      logo_url AS "logoUrl"'' @ [CHR 0x0A] @
     ''      FROM companies''\<close>

text \<open>One turn of the loop of \<^verbatim>\<open>Company.buildFindAllSQLWithQueryString\<close>.\<close>

definition company_step :: "loop_state \<Rightarrow> string \<times> jsval \<Rightarrow> loop_state" where
  \<open>company_step s0 kv =
     (let key = fst kv; s = open_clause s0 in
      if key = ''name'' then
        loop_tail (s\<lparr>sql := sql s @ '' name ILIKE '%' || $'' @ show_nat (paramCount s) @ '' || '%'' @ [CHR 0x27]\<rparr>) (snd kv)
      else if key = ''minEmployees'' then
        loop_tail (s\<lparr>sql := sql s @ '' num_employees >= $'' @ show_nat (paramCount s)\<rparr>) (snd kv)
      else if key = ''maxEmployees'' then
        loop_tail (s\<lparr>sql := sql s @ '' num_employees <= $'' @ show_nat (paramCount s)\<rparr>) (snd kv)
      else loop_tail s (snd kv))\<close>

definition Company_buildFindAllSQLWithQueryString :: "jsobject \<Rightarrow> find_all" where
  "Company_buildFindAllSQLWithQueryString queryString =
     (let s = foldl company_step (init_state company_base_sql) queryString in
      \<lparr>values = values s, sql = sql s @ '' ORDER BY name''\<rparr>)"

section \<open>The check of the query string's keys\<close>

text \<open>
  Modelled from the spec: the membership check of the filter keys, which the route layer
  (\<^verbatim>\<open>routes/jobs.js\<close>, \<^verbatim>\<open>routes/companies.js\<close>) performs before it calls the model and
  which is not among the sources. The spec requires every key of a filter request to belong
  to the resource's vocabulary and an unrecognized key to be a client error that names the
  key; the route test \<^verbatim>\<open>GET /jobs?fakeQueryField=blah&title=test\<close> expects status 400
  with the message \<^verbatim>\<open>Invalid query string parameter: fakeQueryField\<close>. The keys are
  checked in iteration order and the first one outside the vocabulary is reported.
\<close>

definition job_vocabulary :: "string list" where
  "job_vocabulary = [''title'', ''minSalary'', ''hasEquity'']"

definition company_vocabulary :: "string list" where
  "company_vocabulary = [''name'', ''minEmployees'', ''maxEmployees'']"

fun checkQueryString :: "string list \<Rightarrow> jsobject \<Rightarrow> error + unit" where
  "checkQueryString vocabulary [] = Inr ()"
| "checkQueryString vocabulary (kv # rest) =
     (if fst kv \<in> set vocabulary then checkQueryString vocabulary rest
      else Inl (BadRequestError (''Invalid query string parameter: '' @ fst kv)))"

text \<open>
  Modelled from the spec: the filter-query path of each resource, the check above followed
  by the resource's builder.
\<close>

definition jobs_filter_path :: "jsobject \<Rightarrow> error + find_all" where
  "jobs_filter_path query =
     (case checkQueryString job_vocabulary query of
        Inl e \<Rightarrow> Inl e
      | Inr _ \<Rightarrow> Inr (Job_buildFindAllSQLWithQueryString query))"

definition companies_filter_path :: "jsobject \<Rightarrow> error + find_all" where
  "companies_filter_path query =
     (case checkQueryString company_vocabulary query of
        Inl e \<Rightarrow> Inl e
      | Inr _ \<Rightarrow> Inr (Company_buildFindAllSQLWithQueryString query))"

section \<open>Reading a statement\<close>

text \<open>
  The placeholders of a statement, in the order in which they occur in its text: every
  \<open>$\<close> that is followed by at least one decimal digit, with the number its digits
  denote. The claims about the numbering of placeholders are stated on what this reader
  finds in the generated text.
\<close>

definition is_digit :: "char \<Rightarrow> bool" where
  "is_digit c = (c \<in> set ''0123456789'')"

definition digit_val :: "char \<Rightarrow> nat" where
  "digit_val c = of_char c - 48"

definition read_nat :: "string \<Rightarrow> nat" where
  "read_nat ds = foldl (\<lambda>acc c. 10 * acc + digit_val c) 0 ds"

fun placeholders :: "string \<Rightarrow> nat list" where
  "placeholders [] = []"
| "placeholders (c # cs) =
     (if c = CHR ''$'' \<and> takeWhile is_digit cs \<noteq> []
      then read_nat (takeWhile is_digit cs) # placeholders cs
      else placeholders cs)"

declare placeholders.simps(2) [simp del]

text \<open>
  Two notions for the proofs about the loops. A loop state is \<open>numbered\<close> when the
  text built so far holds the placeholders 1 to \<open>paramCount - 1\<close> in this order and the
  counter is one more than the number of values collected. The \<open>shape\<close> of a state is
  what the text of later turns depends on: everything but the values.
\<close>

definition numbered :: "loop_state \<Rightarrow> bool" where
  "numbered s =
     (placeholders (sql s) = [1..<paramCount s] \<and> paramCount s = Suc (length (values s)))"

definition shape :: "loop_state \<Rightarrow> string \<times> bool \<times> nat" where
  "shape s = (sql s, startedSql s, paramCount s)"

section \<open>Printing and reading numbers\<close>

lemma lt10_cases:
  "d < 10 \<Longrightarrow> d = 0 \<or> d = 1 \<or> d = 2 \<or> d = 3 \<or> d = 4 \<or> d = 5 \<or> d = 6 \<or> d = 7 \<or> d = 8 \<or> d = (9::nat)"
  by arith

lemma digit_char_is_digit: "d < 10 \<Longrightarrow> is_digit (digit_char d)"
  using lt10_cases [of d] by (auto simp: digit_char_def is_digit_def)

lemma digit_val_digit_char: "d < 10 \<Longrightarrow> digit_val (digit_char d) = d"
  using lt10_cases [of d] by (auto simp: digit_char_def digit_val_def)

lemma show_nat_digits: "c \<in> set (show_nat n) \<Longrightarrow> is_digit c"
proof (induction n arbitrary: c rule: show_nat.induct)
  case (1 n)
  show ?case
  proof (cases "n < 10")
    case True
    with "1.prems" show ?thesis
      by (simp add: show_nat.simps [of n] digit_char_is_digit)
  next
    case False
    with "1.prems" "1.IH" show ?thesis
      by (auto simp: show_nat.simps [of n] digit_char_is_digit)
  qed
qed

lemma show_nat_not_Nil: "show_nat n \<noteq> []"
  by (simp add: show_nat.simps [of n])

lemma read_nat_snoc: "read_nat (ds @ [c]) = 10 * read_nat ds + digit_val c"
  by (simp add: read_nat_def)

lemma read_nat_show_nat: "read_nat (show_nat n) = n"
proof (induction n rule: show_nat.induct)
  case (1 n)
  show ?case
  proof (cases "n < 10")
    case True
    then show ?thesis
      by (simp add: show_nat.simps [of n] read_nat_def digit_val_digit_char)
  next
    case False
    with "1.IH" show ?thesis
      by (simp add: show_nat.simps [of n] read_nat_snoc digit_val_digit_char)
  qed
qed

lemma show_nat_inj: "show_nat m = show_nat n \<Longrightarrow> m = n"
  by (metis read_nat_show_nat)

section \<open>Placeholders in a text\<close>

lemma takeWhile_append_stop:
  "ys = [] \<or> \<not> P (hd ys) \<Longrightarrow> takeWhile P (xs @ ys) = takeWhile P xs"
  by (induction xs) (auto simp: takeWhile_eq_Nil_iff neq_Nil_conv)

lemma placeholders_no_dollar: "CHR ''$'' \<notin> set xs \<Longrightarrow> placeholders xs = []"
  by (induction xs) (auto simp: placeholders.simps(2))

lemma placeholders_append:
  "ys = [] \<or> \<not> is_digit (hd ys) \<Longrightarrow> placeholders (xs @ ys) = placeholders xs @ placeholders ys"
  by (induction xs) (simp_all add: placeholders.simps(2) takeWhile_append_stop)

lemma is_digit_not_dollar: "is_digit c \<Longrightarrow> c \<noteq> CHR ''$''"
  by (auto simp: is_digit_def)

lemma placeholders_show_nat: "placeholders (show_nat n) = []"
  by (rule placeholders_no_dollar) (auto dest: show_nat_digits is_digit_not_dollar)

lemma takeWhile_show_nat:
  "ys = [] \<or> \<not> is_digit (hd ys) \<Longrightarrow> takeWhile is_digit (show_nat n @ ys) = show_nat n"
  using takeWhile_append_stop [of ys is_digit "show_nat n"]
  by (simp add: takeWhile_eq_all_conv [THEN iffD2] show_nat_digits del: takeWhile_append1 takeWhile_append2)

lemma placeholders_dollar:
  assumes "ys = [] \<or> \<not> is_digit (hd ys)"
  shows "placeholders (CHR ''$'' # show_nat n @ ys) = n # placeholders ys"
  using assms
  by (simp add: placeholders.simps(2) takeWhile_show_nat show_nat_not_Nil read_nat_show_nat
      placeholders_append placeholders_show_nat)

lemma placeholders_Cons_other: "c \<noteq> CHR ''$'' \<Longrightarrow> placeholders (c # cs) = placeholders cs"
  by (simp add: placeholders.simps(2))

lemma placeholders_dollar_end: "placeholders (CHR ''$'' # show_nat n) = [n]"
  using placeholders_dollar [of "[]" n] by simp

lemma not_digit_space: "\<not> is_digit CHR '' ''"
  by (simp add: is_digit_def)

lemmas scan = placeholders_Cons_other placeholders_dollar placeholders_dollar_end
  placeholders_append not_digit_space

section \<open>The numbering kept by the loops\<close>

lemma numbered_init: "CHR ''$'' \<notin> set base \<Longrightarrow> numbered (init_state base)"
  by (simp add: numbered_def init_state_def placeholders_no_dollar)

lemma numbered_open_clause: "numbered s \<Longrightarrow> numbered (open_clause s)"
  by (simp add: numbered_def open_clause_def scan)

lemma numbered_job_step:
  assumes "numbered s" and "k \<in> {''title'', ''minSalary'', ''hasEquity''}"
  shows "numbered (job_step s (k, v))"
  using numbered_open_clause [OF assms(1)] assms(2)
  by (auto simp: numbered_def job_step_def loop_tail_def Let_def scan)

lemma numbered_company_step:
  assumes "numbered s" and "k \<in> {''name'', ''minEmployees'', ''maxEmployees''}"
  shows "numbered (company_step s (k, v))"
  using numbered_open_clause [OF assms(1)] assms(2)
  by (auto simp: numbered_def company_step_def loop_tail_def Let_def scan)

lemma numbered_foldl:
  assumes step: "\<And>s k v. numbered s \<Longrightarrow> k \<in> K \<Longrightarrow> numbered (f s (k, v))"
  shows "numbered s \<Longrightarrow> fst ` set q \<subseteq> K \<Longrightarrow> numbered (foldl f s q)"
proof (induction q arbitrary: s)
  case Nil
  then show ?case by simp
next
  case (Cons kv q)
  obtain k v where kv: "kv = (k, v)" by (cases kv)
  from Cons.prems kv have "numbered (f s (k, v))" by (auto intro: step)
  with Cons.IH [of "f s kv"] Cons.prems kv show ?case by simp
qed

lemma numbered_final:
  assumes "numbered s" and "tl_sql = CHR '' '' # rest" and "CHR ''$'' \<notin> set rest"
  shows "placeholders (sql s @ tl_sql) = [1..<Suc (length (values s))]"
  using assms by (simp add: numbered_def scan placeholders_no_dollar)

lemma no_dollar_job_base: "CHR ''$'' \<notin> set job_base_sql"
  by (simp add: job_base_sql_def)

lemma no_dollar_company_base: "CHR ''$'' \<notin> set company_base_sql"
  by (simp add: company_base_sql_def)

section \<open>The values collected by the loops\<close>

lemma values_job_step:
  "values (job_step s kv) = (if fst kv = ''hasEquity'' then values s else values s @ [snd kv])"
  by (simp add: job_step_def loop_tail_def open_clause_def Let_def)

lemma values_company_step: "values (company_step s kv) = values s @ [snd kv]"
  by (simp add: company_step_def loop_tail_def open_clause_def Let_def)

lemma values_foldl_job_step:
  "values (foldl job_step s q) = values s @ map snd (filter (\<lambda>kv. fst kv \<noteq> ''hasEquity'') q)"
  by (induction q arbitrary: s) (simp_all add: values_job_step)

lemma values_foldl_company_step: "values (foldl company_step s q) = values s @ map snd q"
  by (induction q arbitrary: s) (simp_all add: values_company_step)

section \<open>The text depends on the keys\<close>

lemma shape_job_step:
  "shape s = shape s' \<Longrightarrow> shape (job_step s (k, v)) = shape (job_step s' (k, v'))"
  by (simp add: shape_def job_step_def loop_tail_def open_clause_def Let_def)

lemma shape_company_step:
  "shape s = shape s' \<Longrightarrow> shape (company_step s (k, v)) = shape (company_step s' (k, v'))"
  by (simp add: shape_def company_step_def loop_tail_def open_clause_def Let_def)

lemma shape_foldl:
  assumes step: "\<And>s s' k v v'. shape s = shape s' \<Longrightarrow> shape (f s (k, v)) = shape (f s' (k, v'))"
  shows "map fst q = map fst q' \<Longrightarrow> shape s = shape s' \<Longrightarrow> shape (foldl f s q) = shape (foldl f s' q')"
proof (induction q arbitrary: q' s s')
  case Nil
  then show ?case by simp
next
  case (Cons kv q)
  from Cons.prems(1) obtain kv' r where q': "q' = kv' # r" and k: "fst kv = fst kv'"
    and r: "map fst q = map fst r"
    by (cases q') auto
  have "shape (f s (fst kv, snd kv)) = shape (f s' (fst kv, snd kv'))"
    using Cons.prems(2) by (rule step)
  with k have "shape (f s kv) = shape (f s' kv')"
    by (metis prod.collapse)
  with Cons.IH [OF r] q' show ?case by simp
qed

lemma shape_foldl_job_step:
  assumes "map fst q = map fst q'" and "shape s = shape s'"
  shows "shape (foldl job_step s q) = shape (foldl job_step s' q')"
proof -
  have step: "\<And>s s' k v v'. shape s = shape s' \<Longrightarrow>
      shape (job_step s (k, v)) = shape (job_step s' (k, v'))"
    by (rule shape_job_step)
  show ?thesis
    by (rule shape_foldl [where f = job_step, OF step assms])
qed

lemma shape_foldl_company_step:
  assumes "map fst q = map fst q'" and "shape s = shape s'"
  shows "shape (foldl company_step s q) = shape (foldl company_step s' q')"
proof -
  have step: "\<And>s s' k v v'. shape s = shape s' \<Longrightarrow>
      shape (company_step s (k, v)) = shape (company_step s' (k, v'))"
    by (rule shape_company_step)
  show ?thesis
    by (rule shape_foldl [where f = company_step, OF step assms])
qed

section \<open>The assignment clauses\<close>

lemma sql_column_entry:
  "jsToSql colName = Some c \<Longrightarrow> c \<noteq> [] \<Longrightarrow> sql_column jsToSql colName = c"
  by (simp add: sql_column_def get_property_def)

lemma sql_column_empty_entry:
  "jsToSql colName = Some [] \<Longrightarrow> sql_column jsToSql colName = colName"
  by (simp add: sql_column_def get_property_def)

lemma sql_column_no_entry:
  "jsToSql colName = None \<Longrightarrow> colName \<notin> set Object_prototype_names \<Longrightarrow>
   sql_column jsToSql colName = colName"
  by (simp add: sql_column_def get_property_def Object_prototype_names_def)

lemma length_cols: "length (cols keys jsToSql) = length keys"
  by (simp add: cols_def)

lemma cols_nth:
  "i < length keys \<Longrightarrow>
   cols keys jsToSql ! i = [CHR 0x22] @ sql_column jsToSql (keys ! i) @ [CHR 0x22] @ ''=$'' @ show_nat (Suc i)"
  by (simp add: cols_def nth_enumerate_eq)

section \<open>The text only grows\<close>

lemma sql_job_step_grows: "prefix (sql s) (sql (job_step s kv))"
  by (simp add: job_step_def loop_tail_def open_clause_def Let_def)

lemma sql_foldl_job_step_grows: "prefix (sql s) (sql (foldl job_step s q))"
proof (induction q arbitrary: s)
  case Nil
  then show ?case by simp
next
  case (Cons kv q)
  have "prefix (sql s) (sql (job_step s kv))" by (rule sql_job_step_grows)
  also have "prefix (sql (job_step s kv)) (sql (foldl job_step (job_step s kv) q))" by (rule Cons.IH)
  finally show ?case by simp
qed

lemma sublist_job_step_hasEquity: "sublist '' equity > 0'' (sql (job_step s (''hasEquity'', v)))"
proof -
  have "sql (job_step s (''hasEquity'', v)) =
      (sql s @ (if startedSql s then '' AND '' else '' WHERE '')) @ '' equity > 0'' @ []"
    by (simp add: job_step_def open_clause_def Let_def)
  then show ?thesis
    unfolding sublist_def by blast
qed

lemma sublist_foldl_hasEquity:
  assumes "''hasEquity'' \<in> fst ` set q"
  shows "sublist '' equity > 0'' (sql (foldl job_step s q))"
proof -
  from assms obtain v where "(''hasEquity'', v) \<in> set q" by auto
  then obtain xs ys where q: "q = xs @ (''hasEquity'', v) # ys"
    by (auto dest: split_list)
  let ?s1 = "job_step (foldl job_step s xs) (''hasEquity'', v)"
  have "sublist '' equity > 0'' (sql ?s1)" by (rule sublist_job_step_hasEquity)
  moreover have "prefix (sql ?s1) (sql (foldl job_step ?s1 ys))" by (rule sql_foldl_job_step_grows)
  ultimately have "sublist '' equity > 0'' (sql (foldl job_step ?s1 ys))"
    by (meson prefix_imp_sublist sublist_order.order_trans)
  with q show ?thesis by simp
qed

section \<open>The check of the keys\<close>

lemma checkQueryString_rejects:
  assumes "\<not> fst ` set query \<subseteq> set vocabulary"
  shows "checkQueryString vocabulary query =
     Inl (BadRequestError (''Invalid query string parameter: '' @
       hd (filter (\<lambda>k. k \<notin> set vocabulary) (map fst query))))"
  using assms by (induction query) auto

lemma first_unrecognized:
  assumes "k \<in> fst ` set query" and "k \<notin> set vocabulary"
  defines "k' \<equiv> hd (filter (\<lambda>k. k \<notin> set vocabulary) (map fst query))"
  shows "checkQueryString vocabulary query =
           Inl (BadRequestError (''Invalid query string parameter: '' @ k'))"
    and "k' \<in> fst ` set query" and "k' \<notin> set vocabulary"
    and "fst ` set query - {k} \<subseteq> set vocabulary \<longrightarrow> k' = k"
proof -
  let ?bad = "filter (\<lambda>k. k \<notin> set vocabulary) (map fst query)"
  from assms(1,2) have "?bad \<noteq> []"
    by (auto simp: filter_empty_conv)
  then have "hd ?bad \<in> set ?bad"
    by (rule hd_in_set)
  then show in_q: "k' \<in> fst ` set query" and out: "k' \<notin> set vocabulary"
    unfolding k'_def by auto
  from assms(1,2) have "\<not> fst ` set query \<subseteq> set vocabulary"
    by auto
  then show "checkQueryString vocabulary query =
      Inl (BadRequestError (''Invalid query string parameter: '' @ k'))"
    unfolding k'_def by (rule checkQueryString_rejects)
  from in_q out show "fst ` set query - {k} \<subseteq> set vocabulary \<longrightarrow> k' = k"
    by blast
qed

section \<open>The builders as a whole\<close>

lemma values_Job:
  "values (Job_buildFindAllSQLWithQueryString q) =
     map snd (filter (\<lambda>kv. fst kv \<noteq> ''hasEquity'') q)"
  by (simp add: Job_buildFindAllSQLWithQueryString_def Let_def values_foldl_job_step init_state_def)

lemma values_Company: "values (Company_buildFindAllSQLWithQueryString q) = map snd q"
  by (simp add: Company_buildFindAllSQLWithQueryString_def Let_def values_foldl_company_step
      init_state_def)

lemma placeholders_Job:
  assumes "fst ` set q \<subseteq> {''title'', ''minSalary'', ''hasEquity''}"
  shows "placeholders (sql (Job_buildFindAllSQLWithQueryString q)) =
     [1..<Suc (length (values (Job_buildFindAllSQLWithQueryString q)))]"
proof -
  have "numbered (foldl job_step (init_state job_base_sql) q)"
    using numbered_job_step numbered_init [OF no_dollar_job_base] assms
    by (rule numbered_foldl)
  then show ?thesis
    by (simp add: Job_buildFindAllSQLWithQueryString_def Let_def numbered_final)
qed

lemma placeholders_Company:
  assumes "fst ` set q \<subseteq> {''name'', ''minEmployees'', ''maxEmployees''}"
  shows "placeholders (sql (Company_buildFindAllSQLWithQueryString q)) =
     [1..<Suc (length (values (Company_buildFindAllSQLWithQueryString q)))]"
proof -
  have "numbered (foldl company_step (init_state company_base_sql) q)"
    using numbered_company_step numbered_init [OF no_dollar_company_base] assms
    by (rule numbered_foldl)
  then show ?thesis
    by (simp add: Company_buildFindAllSQLWithQueryString_def Let_def numbered_final)
qed

lemma sql_Job_keys:
  assumes "map fst q = map fst q'"
  shows "sql (Job_buildFindAllSQLWithQueryString q) = sql (Job_buildFindAllSQLWithQueryString q')"
proof -
  have "shape (foldl job_step (init_state job_base_sql) q) =
      shape (foldl job_step (init_state job_base_sql) q')"
    using assms by (rule shape_foldl_job_step) simp
  then show ?thesis
    by (simp add: Job_buildFindAllSQLWithQueryString_def Let_def shape_def)
qed

lemma sql_Company_keys:
  assumes "map fst q = map fst q'"
  shows "sql (Company_buildFindAllSQLWithQueryString q) =
     sql (Company_buildFindAllSQLWithQueryString q')"
proof -
  have "shape (foldl company_step (init_state company_base_sql) q) =
      shape (foldl company_step (init_state company_base_sql) q')"
    using assms by (rule shape_foldl_company_step) simp
  then show ?thesis
    by (simp add: Company_buildFindAllSQLWithQueryString_def Let_def shape_def)
qed

lemma sublist_Job_hasEquity:
  assumes "''hasEquity'' \<in> fst ` set q"
  shows "sublist '' equity > 0'' (sql (Job_buildFindAllSQLWithQueryString q))"
proof -
  let ?s = "foldl job_step (init_state job_base_sql) q"
  from assms have "sublist '' equity > 0'' (sql ?s)"
    by (rule sublist_foldl_hasEquity)
  moreover have "sublist (sql ?s) (sql ?s @ '' ORDER BY title'')"
    by (rule sublist_append_rightI)
  ultimately have "sublist '' equity > 0'' (sql ?s @ '' ORDER BY title'')"
    by (rule sublist_order.order_trans)
  then show ?thesis
    by (simp add: Job_buildFindAllSQLWithQueryString_def Let_def)
qed

lemma job_step_hasEquity_value:
  "job_step s (''hasEquity'', v) = job_step s (''hasEquity'', w)"
  by (simp add: job_step_def Let_def)

lemma foldl_job_step_hasEquity_value:
  "foldl job_step s (map (\<lambda>kv. if fst kv = ''hasEquity'' then (fst kv, w) else kv) q) =
   foldl job_step s q"
proof (induction q arbitrary: s)
  case Nil
  then show ?case by simp
next
  case (Cons kv q)
  have "job_step s (if fst kv = ''hasEquity'' then (fst kv, w) else kv) = job_step s kv"
    using job_step_hasEquity_value [of s w "snd kv"]
    by (cases kv) auto
  with Cons.IH show ?case by simp
qed

section \<open>Evaluation on concrete inputs\<close>

lemmas run_defs = Job_buildFindAllSQLWithQueryString_def Company_buildFindAllSQLWithQueryString_def
  init_state_def job_step_def company_step_def open_clause_def loop_tail_def Let_def
  show_nat.simps digit_char_def

lemmas update_defs = sqlForPartialUpdate_def cols_def sql_column_def get_property_def
  Object_prototype_methods_def Let_def enumerate_eq_zip show_nat.simps digit_char_def

section \<open>The statement text and the values\<close>

text \<open>
  C1. The text a builder generates is a function of the keys alone. Two mappings with the
  same keys in the same iteration order give the same assignment text from
  \<^verbatim>\<open>sqlForPartialUpdate\<close> (for one translation table) and the same statement from the
  filter query builder of jobs and from that of companies, whatever their values are. The
  values go to the list of bind values and nowhere else: all of them, in order, for the
  partial update and for companies; all but the one of \<^verbatim>\<open>hasEquity\<close>, which is dropped,
  for jobs.
\<close>

theorem statement_text_depends_on_keys_only:
  assumes "map fst d1 = map fst d2"
  shows "map_sum id setCols (sqlForPartialUpdate d1 jsToSql) =
           map_sum id setCols (sqlForPartialUpdate d2 jsToSql)
       \<and> sql (Job_buildFindAllSQLWithQueryString d1) = sql (Job_buildFindAllSQLWithQueryString d2)
       \<and> sql (Company_buildFindAllSQLWithQueryString d1) =
           sql (Company_buildFindAllSQLWithQueryString d2)
       \<and> map_sum id values (sqlForPartialUpdate d1 jsToSql) =
           (if d1 = [] then Inl (BadRequestError ''No data'') else Inr (map snd d1))
       \<and> values (Job_buildFindAllSQLWithQueryString d1) =
           map snd (filter (\<lambda>kv. fst kv \<noteq> ''hasEquity'') d1)
       \<and> values (Company_buildFindAllSQLWithQueryString d1) = map snd d1"
proof -
  have len: "length d1 = length d2"
    using assms by (metis length_map)
  have upd: "map_sum id setCols (sqlForPartialUpdate d1 jsToSql) =
      map_sum id setCols (sqlForPartialUpdate d2 jsToSql)"
    using assms len by (simp add: sqlForPartialUpdate_def)
  have v1: "map_sum id values (sqlForPartialUpdate d1 jsToSql) =
      (if d1 = [] then Inl (BadRequestError ''No data'') else Inr (map snd d1))"
    by (simp add: sqlForPartialUpdate_def)
  from upd sql_Job_keys [OF assms] sql_Company_keys [OF assms] v1 values_Job [of d1]
    values_Company [of d1]
  show ?thesis
    by (intro conjI)
qed

theorem statement_text_depends_on_keys_only_witness:
  "map fst [(''title'', JStr ''test''), (''minSalary'', JNum 80000)] =
     map fst [(''title'', JStr ''x; DROP TABLE jobs; --''), (''minSalary'', JNull)]
   \<and> sql (Job_buildFindAllSQLWithQueryString
         [(''title'', JStr ''test''), (''minSalary'', JNum 80000)]) =
     sql (Job_buildFindAllSQLWithQueryString
         [(''title'', JStr ''x; DROP TABLE jobs; --''), (''minSalary'', JNull)])
   \<and> sql (Company_buildFindAllSQLWithQueryString
         [(''title'', JStr ''test''), (''minSalary'', JNum 80000)]) =
     sql (Company_buildFindAllSQLWithQueryString
         [(''title'', JStr ''x; DROP TABLE jobs; --''), (''minSalary'', JNull)])
   \<and> map_sum id setCols
         (sqlForPartialUpdate [(''title'', JStr ''test''), (''minSalary'', JNum 80000)] Map.empty) =
     map_sum id setCols
         (sqlForPartialUpdate [(''title'', JStr ''x; DROP TABLE jobs; --''), (''minSalary'', JNull)]
            Map.empty)"
proof -
  have h: "map fst [(''title'', JStr ''test''), (''minSalary'', JNum 80000)] =
     map fst [(''title'', JStr ''x; DROP TABLE jobs; --''), (''minSalary'', JNull)]"
    by simp
  note t = statement_text_depends_on_keys_only [OF h, of Map.empty]
  from h t [THEN conjunct2, THEN conjunct1] t [THEN conjunct2, THEN conjunct2, THEN conjunct1]
    t [THEN conjunct1]
  show ?thesis
    by (intro conjI)
qed

section \<open>The numbering of the placeholders\<close>

text \<open>
  C2. For a filter mapping whose keys all belong to the resource's vocabulary (jobs:
  \<^verbatim>\<open>title\<close>, \<^verbatim>\<open>minSalary\<close>, \<^verbatim>\<open>hasEquity\<close>; companies: \<^verbatim>\<open>name\<close>, \<^verbatim>\<open>minEmployees\<close>,
  \<^verbatim>\<open>maxEmployees\<close>), the placeholders found in the returned statement, in the order of
  the text, are exactly 1, 2, ..., n, where n is the number of returned values: as many
  placeholders as values, increasing, without a gap and without a repetition.
\<close>

theorem placeholders_match_values:
  "(fst ` set q \<subseteq> {''title'', ''minSalary'', ''hasEquity''} \<longrightarrow>
      placeholders (sql (Job_buildFindAllSQLWithQueryString q)) =
        [1..<Suc (length (values (Job_buildFindAllSQLWithQueryString q)))])
   \<and> (fst ` set q \<subseteq> {''name'', ''minEmployees'', ''maxEmployees''} \<longrightarrow>
      placeholders (sql (Company_buildFindAllSQLWithQueryString q)) =
        [1..<Suc (length (values (Company_buildFindAllSQLWithQueryString q)))])"
  by (intro conjI impI) (erule placeholders_Job, erule placeholders_Company)

theorem placeholders_match_values_witness:
  "fst ` set [(''title'', JStr ''test''), (''minSalary'', JNum 75000), (''hasEquity'', JBool True)]
      \<subseteq> {''title'', ''minSalary'', ''hasEquity''}
   \<and> placeholders (sql (Job_buildFindAllSQLWithQueryString
        [(''title'', JStr ''test''), (''minSalary'', JNum 75000), (''hasEquity'', JBool True)])) = [1, 2]
   \<and> fst ` set [(''name'', JStr ''net''), (''minEmployees'', JNum 10), (''maxEmployees'', JNum 400)]
      \<subseteq> {''name'', ''minEmployees'', ''maxEmployees''}
   \<and> placeholders (sql (Company_buildFindAllSQLWithQueryString
        [(''name'', JStr ''net''), (''minEmployees'', JNum 10), (''maxEmployees'', JNum 400)])) = [1, 2, 3]"
proof -
  let ?j = "[(''title'', JStr ''test''), (''minSalary'', JNum 75000), (''hasEquity'', JBool True)]"
  let ?c = "[(''name'', JStr ''net''), (''minEmployees'', JNum 10), (''maxEmployees'', JNum 400)]"
  have hj: "fst ` set ?j \<subseteq> {''title'', ''minSalary'', ''hasEquity''}"
    by simp
  have hc: "fst ` set ?c \<subseteq> {''name'', ''minEmployees'', ''maxEmployees''}"
    by simp
  have vj: "values (Job_buildFindAllSQLWithQueryString ?j) = [JStr ''test'', JNum 75000]"
    by (simp add: run_defs)
  have vc: "values (Company_buildFindAllSQLWithQueryString ?c) = [JStr ''net'', JNum 10, JNum 400]"
    by (simp add: run_defs)
  have nj: "[1..<Suc (length (values (Job_buildFindAllSQLWithQueryString ?j)))] = [1, 2]"
    unfolding vj by (simp add: upt_rec)
  have nc: "[1..<Suc (length (values (Company_buildFindAllSQLWithQueryString ?c)))] = [1, 2, 3]"
    unfolding vc by (simp add: upt_rec)
  from placeholders_match_values [of ?j, THEN conjunct1, rule_format, OF hj] nj
  have pj: "placeholders (sql (Job_buildFindAllSQLWithQueryString ?j)) = [1, 2]"
    by (rule trans)
  from placeholders_match_values [of ?c, THEN conjunct2, rule_format, OF hc] nc
  have pc: "placeholders (sql (Company_buildFindAllSQLWithQueryString ?c)) = [1, 2, 3]"
    by (rule trans)
  from hj pj hc pc show ?thesis
    by (intro conjI)
qed

section \<open>The empty update\<close>

text \<open>
  C3. With an empty data mapping \<^verbatim>\<open>sqlForPartialUpdate\<close> throws
  \<^verbatim>\<open>BadRequestError("No data")\<close> whatever the translation table is: the test on the
  number of keys comes first, so the outcome does not depend on any entry of the table, and
  no output is produced.
\<close>

theorem sqlForPartialUpdate_no_data:
  "sqlForPartialUpdate [] jsToSql = Inl (BadRequestError ''No data'')"
  by (simp add: sqlForPartialUpdate_def)

section \<open>Unrecognized filter keys\<close>

text \<open>
  C4. When a filter mapping contains a key outside the resource's vocabulary, the
  filter-query path fails with the client error that names an offending key: a key of the
  mapping that is outside the vocabulary, the first such key in iteration order, and hence
  the given key itself when every other key is recognized. Recognized keys beside it do
  not change this, and the builder is not reached. The check is the one modelled from the
  spec above; the builders themselves do not test the keys.
\<close>

theorem unrecognized_filter_key_rejected:
  assumes "k \<in> fst ` set query"
  shows "(k \<notin> set job_vocabulary \<longrightarrow>
          (\<exists>k'. k' \<in> fst ` set query \<and> k' \<notin> set job_vocabulary \<and>
             (fst ` set query - {k} \<subseteq> set job_vocabulary \<longrightarrow> k' = k) \<and>
             jobs_filter_path query =
               Inl (BadRequestError (''Invalid query string parameter: '' @ k'))))
       \<and> (k \<notin> set company_vocabulary \<longrightarrow>
          (\<exists>k'. k' \<in> fst ` set query \<and> k' \<notin> set company_vocabulary \<and>
             (fst ` set query - {k} \<subseteq> set company_vocabulary \<longrightarrow> k' = k) \<and>
             companies_filter_path query =
               Inl (BadRequestError (''Invalid query string parameter: '' @ k'))))"
proof (intro conjI impI)
  assume bad: "k \<notin> set job_vocabulary"
  let ?k' = "hd (filter (\<lambda>k. k \<notin> set job_vocabulary) (map fst query))"
  note f = first_unrecognized [OF assms bad]
  have "jobs_filter_path query = Inl (BadRequestError (''Invalid query string parameter: '' @ ?k'))"
    unfolding jobs_filter_path_def by (simp only: f(1) sum.case)
  with f(2,3,4) show "\<exists>k'. k' \<in> fst ` set query \<and> k' \<notin> set job_vocabulary \<and>
             (fst ` set query - {k} \<subseteq> set job_vocabulary \<longrightarrow> k' = k) \<and>
             jobs_filter_path query =
               Inl (BadRequestError (''Invalid query string parameter: '' @ k'))"
    by blast
next
  assume bad: "k \<notin> set company_vocabulary"
  let ?k' = "hd (filter (\<lambda>k. k \<notin> set company_vocabulary) (map fst query))"
  note f = first_unrecognized [OF assms bad]
  have "companies_filter_path query =
      Inl (BadRequestError (''Invalid query string parameter: '' @ ?k'))"
    unfolding companies_filter_path_def by (simp only: f(1) sum.case)
  with f(2,3,4) show "\<exists>k'. k' \<in> fst ` set query \<and> k' \<notin> set company_vocabulary \<and>
             (fst ` set query - {k} \<subseteq> set company_vocabulary \<longrightarrow> k' = k) \<and>
             companies_filter_path query =
               Inl (BadRequestError (''Invalid query string parameter: '' @ k'))"
    by blast
qed

text \<open>The request of the route test: \<^verbatim>\<open>fakeQueryField\<close> beside the valid \<^verbatim>\<open>title\<close>.\<close>

theorem unrecognized_filter_key_rejected_witness:
  "''fakeQueryField'' \<in> fst ` set [(''fakeQueryField'', JStr ''blah''), (''title'', JStr ''test'')]
   \<and> ''fakeQueryField'' \<notin> set job_vocabulary
   \<and> ''fakeQueryField'' \<notin> set company_vocabulary
   \<and> jobs_filter_path [(''fakeQueryField'', JStr ''blah''), (''title'', JStr ''test'')] =
       Inl (BadRequestError ''Invalid query string parameter: fakeQueryField'')
   \<and> (\<exists>k'. companies_filter_path [(''fakeQueryField'', JStr ''blah''), (''title'', JStr ''test'')] =
       Inl (BadRequestError (''Invalid query string parameter: '' @ k')))"
proof -
  let ?q = "[(''fakeQueryField'', JStr ''blah''), (''title'', JStr ''test'')]"
  have h: "''fakeQueryField'' \<in> fst ` set ?q"
    by simp
  have nj: "''fakeQueryField'' \<notin> set job_vocabulary"
    by (simp add: job_vocabulary_def)
  have nc: "''fakeQueryField'' \<notin> set company_vocabulary"
    by (simp add: company_vocabulary_def)
  have only: "fst ` set ?q - {''fakeQueryField''} \<subseteq> set job_vocabulary"
    by (simp add: job_vocabulary_def)
  note t = unrecognized_filter_key_rejected [OF h]
  from t [THEN conjunct1, rule_format, OF nj] obtain k' where
    k': "fst ` set ?q - {''fakeQueryField''} \<subseteq> set job_vocabulary \<longrightarrow> k' = ''fakeQueryField''"
    and j: "jobs_filter_path ?q = Inl (BadRequestError (''Invalid query string parameter: '' @ k'))"
    by (elim exE conjE)
  from k' only have "k' = ''fakeQueryField''"
    by (rule mp)
  with j have j': "jobs_filter_path ?q =
      Inl (BadRequestError ''Invalid query string parameter: fakeQueryField'')"
    by simp
  from t [THEN conjunct2, rule_format, OF nc] obtain k'' where
    c: "companies_filter_path ?q = Inl (BadRequestError (''Invalid query string parameter: '' @ k''))"
    by (elim exE conjE)
  then have c': "\<exists>k'. companies_filter_path ?q =
      Inl (BadRequestError (''Invalid query string parameter: '' @ k'))"
    by (rule exI)
  from h nj nc j' c' show ?thesis
    by (intro conjI)
qed

section \<open>The predicate of the title filter\<close>

text \<open>
  C5. The claim is that the predicate generated for the key \<^verbatim>\<open>title\<close> matches the
  \<open>title\<close> column, case-insensitively and anywhere in the text. The pattern is as
  claimed, \<^verbatim>\<open>ILIKE '%' || $1 || '%'\<close>, but the code applies it to a column \<open>name\<close>,
  which the relation \<open>jobs\<close> selected from does not have: for the filter
  \<^verbatim>\<open>{title: "est"}\<close> of the model test the statement is the following.
\<close>

theorem title_filter_names_column_name:
  \<open>Job_buildFindAllSQLWithQueryString [(''title'', JStr ''est'')] =
     \<lparr>values = [JStr ''est''],
      sql = job_base_sql @ '' WHERE  name ILIKE '%' || $1 || '%' ORDER BY title''\<rparr>\<close>
  by (simp add: run_defs)

section \<open>Translation of column names\<close>

text \<open>
  C6, as stated, fails in both of its halves. An entry of the table that is the empty
  string is an entry, and yet the column is the key, since \<^verbatim>\<open>||\<close> falls back on every
  falsy value. And a key for which the table has no entry does not give the key as the
  column when the lookup finds the name in \<^verbatim>\<open>Object.prototype\<close>: with the empty table
  of \<^verbatim>\<open>Job.update\<close> the key \<^verbatim>\<open>constructor\<close> gives the text of the function
  \<^verbatim>\<open>Object\<close>.
\<close>

theorem translation_precedence_counterexample:
  \<open>[''firstName'' \<mapsto> ''''] ''firstName'' = Some ''''
   \<and> sql_column [''firstName'' \<mapsto> ''''] ''firstName'' \<noteq> ''''
   \<and> sqlForPartialUpdate [(''firstName'', JStr ''Aliya'')] [''firstName'' \<mapsto> ''''] =
       Inr \<lparr>values = [JStr ''Aliya''], setCols = ''"firstName"=$1''\<rparr>
   \<and> (Map.empty :: string \<rightharpoonup> string) ''constructor'' = None
   \<and> sql_column Map.empty ''constructor'' \<noteq> ''constructor''
   \<and> sqlForPartialUpdate [(''constructor'', JStr ''Aliya'')] Map.empty =
       Inr \<lparr>values = [JStr ''Aliya''],
            setCols = ''"function Object() { [native code] }"=$1''\<rparr>\<close>
  by (simp add: update_defs)

text \<open>
  C6, amended. For a non-empty data mapping and a translation table, the assignment clause
  of a key has as its column the table's entry for the key when there is one and it is not
  the empty string, and the key itself verbatim when the entry is the empty string or when
  there is no entry and the key is not one of the names that the table inherits from
  \<^verbatim>\<open>Object.prototype\<close>. Nothing is said of a key without an entry that is such a name.
\<close>

theorem translation_precedence:
  assumes "dataToUpdate \<noteq> []" and "i < length dataToUpdate"
    and "jsToSql (fst (dataToUpdate ! i)) \<noteq> None \<or>
         fst (dataToUpdate ! i) \<notin> set Object_prototype_names"
  shows \<open>\<exists>r. sqlForPartialUpdate dataToUpdate jsToSql = Inr r
     \<and> setCols r = join '', '' (cols (map fst dataToUpdate) jsToSql)
     \<and> cols (map fst dataToUpdate) jsToSql ! i =
         ''"'' @ (case jsToSql (fst (dataToUpdate ! i)) of
                    None \<Rightarrow> fst (dataToUpdate ! i)
                  | Some c \<Rightarrow> if c = '''' then fst (dataToUpdate ! i) else c)
           @ ''"=$'' @ show_nat (Suc i)\<close>
proof -
  let ?key = "fst (dataToUpdate ! i)"
  have column: "sql_column jsToSql ?key =
      (case jsToSql ?key of None \<Rightarrow> ?key | Some c \<Rightarrow> if c = '''' then ?key else c)"
  proof (cases "jsToSql ?key")
    case None
    with assms(3) have "?key \<notin> set Object_prototype_names"
      by simp
    with None show ?thesis
      by (simp add: sql_column_no_entry)
  next
    case (Some c)
    then show ?thesis
      by (cases "c = []") (simp_all add: sql_column_entry sql_column_empty_entry)
  qed
  have "cols (map fst dataToUpdate) jsToSql ! i =
      [CHR 0x22] @ sql_column jsToSql ?key @ [CHR 0x22] @ ''=$'' @ show_nat (Suc i)"
    using assms(2) by (simp add: cols_nth)
  with column assms(1) show ?thesis
    by (simp add: sqlForPartialUpdate_def)
qed

text \<open>
  The table of \<^verbatim>\<open>Company.update\<close>, at a key with an entry and at a key without one.
\<close>

theorem translation_precedence_witness:
  \<open>[(''numEmployees'', JNum 10), (''name'', JStr ''New''), (''logoUrl'', JNull)] \<noteq> []
   \<and> (0::nat) < length [(''numEmployees'', JNum 10), (''name'', JStr ''New''), (''logoUrl'', JNull)]
   \<and> cols (map fst [(''numEmployees'', JNum 10), (''name'', JStr ''New''), (''logoUrl'', JNull)])
        [''numEmployees'' \<mapsto> ''num_employees'', ''logoUrl'' \<mapsto> ''logo_url''] ! 0 =
       ''"num_employees"=$1''
   \<and> (1::nat) < length [(''numEmployees'', JNum 10), (''name'', JStr ''New''), (''logoUrl'', JNull)]
   \<and> ''name'' \<notin> set Object_prototype_names
   \<and> cols (map fst [(''numEmployees'', JNum 10), (''name'', JStr ''New''), (''logoUrl'', JNull)])
        [''numEmployees'' \<mapsto> ''num_employees'', ''logoUrl'' \<mapsto> ''logo_url''] ! 1 =
       ''"name"=$2''\<close>
proof -
  let ?d = "[(''numEmployees'', JNum 10), (''name'', JStr ''New''), (''logoUrl'', JNull)]"
  let ?t = "[''numEmployees'' \<mapsto> ''num_employees'', ''logoUrl'' \<mapsto> ''logo_url'']"
  have h1: "?d \<noteq> []" and h2: "(0::nat) < length ?d" and h2': "(1::nat) < length ?d"
    by simp_all
  have h3: "?t (fst (?d ! 0)) \<noteq> None \<or> fst (?d ! 0) \<notin> set Object_prototype_names"
    by simp
  have n: "''name'' \<notin> set Object_prototype_names"
    by (simp add: Object_prototype_names_def Object_prototype_methods_def)
  then have h3': "?t (fst (?d ! 1)) \<noteq> None \<or> fst (?d ! 1) \<notin> set Object_prototype_names"
    by simp
  from translation_precedence [where dataToUpdate = ?d and i = 0 and jsToSql = ?t, OF h1 h2 h3]
  have \<open>cols (map fst ?d) ?t ! 0 =
         ''"'' @ (case ?t (fst (?d ! 0)) of
                    None \<Rightarrow> fst (?d ! 0)
                  | Some c \<Rightarrow> if c = '''' then fst (?d ! 0) else c)
           @ ''"=$'' @ show_nat (Suc 0)\<close>
    by (elim exE conjE)
  then have c0: \<open>cols (map fst ?d) ?t ! 0 = ''"num_employees"=$1''\<close>
    by (simp add: show_nat.simps digit_char_def)
  from translation_precedence [where dataToUpdate = ?d and i = 1 and jsToSql = ?t, OF h1 h2' h3']
  have \<open>cols (map fst ?d) ?t ! 1 =
         ''"'' @ (case ?t (fst (?d ! 1)) of
                    None \<Rightarrow> fst (?d ! 1)
                  | Some c \<Rightarrow> if c = '''' then fst (?d ! 1) else c)
           @ ''"=$'' @ show_nat (Suc 1)\<close>
    by (elim exE conjE)
  then have c1: \<open>cols (map fst ?d) ?t ! 1 = ''"name"=$2''\<close>
    by (simp add: show_nat.simps digit_char_def)
  from h1 h2 c0 h2' n c1 show ?thesis
    by (intro conjI)
qed

section \<open>Values and placeholders of the partial update\<close>

text \<open>
  C7. For a non-empty data mapping with n keys and any translation table,
  \<^verbatim>\<open>sqlForPartialUpdate\<close> returns n values and n assignment clauses joined with
  \<^verbatim>\<open>", "\<close>; the clause at position i (from 0) carries the placeholder \<open>$(i+1)\<close> and the
  value at position i is the value of that clause's key. The placeholder the callers take
  next, \<^verbatim>\<open>"$" + (values.length + 1)\<close>, is \<open>$(n+1)\<close> and differs from every placeholder
  of the clauses. On \<^verbatim>\<open>{firstName: "Aliya", age: 32}\<close> with the table
  \<^verbatim>\<open>{firstName: "first_name", age: "age"}\<close> the result is the assignments
  \<^verbatim>\<open>"first_name"=$1, "age"=$2\<close> and the values \<^verbatim>\<open>["Aliya", 32]\<close>.
\<close>

theorem values_follow_placeholders:
  assumes "dataToUpdate \<noteq> []"
  shows \<open>(\<exists>r. sqlForPartialUpdate dataToUpdate jsToSql = Inr r
       \<and> length (values r) = length dataToUpdate
       \<and> length (cols (map fst dataToUpdate) jsToSql) = length dataToUpdate
       \<and> setCols r = join '', '' (cols (map fst dataToUpdate) jsToSql)
       \<and> (\<forall>i < length dataToUpdate.
            values r ! i = snd (dataToUpdate ! i)
          \<and> cols (map fst dataToUpdate) jsToSql ! i =
              ''"'' @ sql_column jsToSql (fst (dataToUpdate ! i)) @ ''"=$'' @ show_nat (i + 1)
          \<and> ''$'' @ show_nat (i + 1) \<noteq> idIdx (values r))
       \<and> idIdx (values r) = ''$'' @ show_nat (length dataToUpdate + 1))
     \<and> sqlForPartialUpdate [(''firstName'', JStr ''Aliya''), (''age'', JNum 32)]
          [''firstName'' \<mapsto> ''first_name'', ''age'' \<mapsto> ''age''] =
        Inr \<lparr>values = [JStr ''Aliya'', JNum 32], setCols = ''"first_name"=$1, "age"=$2''\<rparr>\<close>
proof (rule conjI)
  let ?r = "\<lparr>values = map snd dataToUpdate,
      setCols = join '', '' (cols (map fst dataToUpdate) jsToSql)\<rparr>"
  have r: "sqlForPartialUpdate dataToUpdate jsToSql = Inr ?r"
    using assms by (simp add: sqlForPartialUpdate_def)
  have fresh: "''$'' @ show_nat (i + 1) \<noteq> idIdx (values ?r)" if "i < length dataToUpdate" for i
  proof
    assume "''$'' @ show_nat (i + 1) = idIdx (values ?r)"
    then have "show_nat (i + 1) = show_nat (length dataToUpdate + 1)"
      by (simp add: idIdx_def)
    then have "i + 1 = length dataToUpdate + 1"
      by (rule show_nat_inj)
    with that show False by simp
  qed
  have each: "\<forall>i < length dataToUpdate.
            values ?r ! i = snd (dataToUpdate ! i)
          \<and> cols (map fst dataToUpdate) jsToSql ! i =
              [CHR 0x22] @ sql_column jsToSql (fst (dataToUpdate ! i)) @ [CHR 0x22] @ ''=$'' @ show_nat (i + 1)
          \<and> ''$'' @ show_nat (i + 1) \<noteq> idIdx (values ?r)"
    using fresh by (simp add: cols_nth)
  have "length (values ?r) = length dataToUpdate
       \<and> length (cols (map fst dataToUpdate) jsToSql) = length dataToUpdate
       \<and> setCols ?r = join '', '' (cols (map fst dataToUpdate) jsToSql)
       \<and> idIdx (values ?r) = ''$'' @ show_nat (length dataToUpdate + 1)"
    by (simp add: length_cols idIdx_def)
  with r each show \<open>\<exists>r. sqlForPartialUpdate dataToUpdate jsToSql = Inr r
       \<and> length (values r) = length dataToUpdate
       \<and> length (cols (map fst dataToUpdate) jsToSql) = length dataToUpdate
       \<and> setCols r = join '', '' (cols (map fst dataToUpdate) jsToSql)
       \<and> (\<forall>i < length dataToUpdate.
            values r ! i = snd (dataToUpdate ! i)
          \<and> cols (map fst dataToUpdate) jsToSql ! i =
              ''"'' @ sql_column jsToSql (fst (dataToUpdate ! i)) @ ''"=$'' @ show_nat (i + 1)
          \<and> ''$'' @ show_nat (i + 1) \<noteq> idIdx (values r))
       \<and> idIdx (values r) = ''$'' @ show_nat (length dataToUpdate + 1)\<close>
    by (intro exI [of _ ?r]) simp
next
  show \<open>sqlForPartialUpdate [(''firstName'', JStr ''Aliya''), (''age'', JNum 32)]
          [''firstName'' \<mapsto> ''first_name'', ''age'' \<mapsto> ''age''] =
        Inr \<lparr>values = [JStr ''Aliya'', JNum 32], setCols = ''"first_name"=$1, "age"=$2''\<rparr>\<close>
    by (simp add: update_defs)
qed

theorem values_follow_placeholders_witness:
  \<open>[(''firstName'', JStr ''Aliya'')] \<noteq> []
   \<and> (\<exists>r. sqlForPartialUpdate [(''firstName'', JStr ''Aliya'')] [''firstName'' \<mapsto> ''first_name''] = Inr r
        \<and> length (values r) = 1
        \<and> idIdx (values r) = ''$2'')\<close>
proof -
  let ?d = "[(''firstName'', JStr ''Aliya'')]"
  have h: "?d \<noteq> []"
    by simp
  from values_follow_placeholders [OF h, of "[''firstName'' \<mapsto> ''first_name'']", THEN conjunct1]
  obtain r where r: "sqlForPartialUpdate ?d [''firstName'' \<mapsto> ''first_name''] = Inr r"
    and l: "length (values r) = length ?d"
    and n: "idIdx (values r) = ''$'' @ show_nat (length ?d + 1)"
    by (elim exE conjE)
  from l have l': "length (values r) = 1"
    by simp
  from n have n': "idIdx (values r) = ''$2''"
    by (simp add: show_nat.simps digit_char_def)
  from r l' n' have "\<exists>r. sqlForPartialUpdate ?d [''firstName'' \<mapsto> ''first_name''] = Inr r
        \<and> length (values r) = 1 \<and> idIdx (values r) = ''$2''"
    by (intro exI [of _ r] conjI)
  with h show ?thesis
    by (intro conjI)
qed

section \<open>The equity flag\<close>

text \<open>
  C8. The turn of the loop for the key \<^verbatim>\<open>hasEquity\<close> appends the connective and the
  literal text \<^verbatim>\<open> equity > 0\<close> and leaves the counter and the values as they are. So for
  a job filter mapping that contains \<^verbatim>\<open>hasEquity\<close> beside any of \<^verbatim>\<open>title\<close> and
  \<^verbatim>\<open>minSalary\<close>, the literal clause is in the statement, the returned values are those of
  the other keys, and the placeholders of the statement are 1, 2, ... up to the number of
  the other keys: the numbering runs on across the literal clause.
\<close>

theorem hasEquity_literal_predicate:
  "job_step s (''hasEquity'', v) =
     s\<lparr>sql := sql s @ (if startedSql s then '' AND '' else '' WHERE '') @ '' equity > 0'',
       startedSql := True\<rparr>
   \<and> (''hasEquity'' \<in> fst ` set q \<and> fst ` set q \<subseteq> {''title'', ''minSalary'', ''hasEquity''} \<longrightarrow>
        values (Job_buildFindAllSQLWithQueryString q) =
          map snd (filter (\<lambda>kv. fst kv \<noteq> ''hasEquity'') q)
      \<and> placeholders (sql (Job_buildFindAllSQLWithQueryString q)) =
          [1..<Suc (length (filter (\<lambda>kv. fst kv \<noteq> ''hasEquity'') q))]
      \<and> sublist '' equity > 0'' (sql (Job_buildFindAllSQLWithQueryString q)))"
proof (intro conjI impI)
  show "job_step s (''hasEquity'', v) =
     s\<lparr>sql := sql s @ (if startedSql s then '' AND '' else '' WHERE '') @ '' equity > 0'',
       startedSql := True\<rparr>"
    by (simp add: job_step_def open_clause_def Let_def)
next
  show "values (Job_buildFindAllSQLWithQueryString q) =
      map snd (filter (\<lambda>kv. fst kv \<noteq> ''hasEquity'') q)"
    by (rule values_Job)
next
  assume "''hasEquity'' \<in> fst ` set q \<and> fst ` set q \<subseteq> {''title'', ''minSalary'', ''hasEquity''}"
  then have "fst ` set q \<subseteq> {''title'', ''minSalary'', ''hasEquity''}"
    by (rule conjunct2)
  then have "placeholders (sql (Job_buildFindAllSQLWithQueryString q)) =
      [1..<Suc (length (values (Job_buildFindAllSQLWithQueryString q)))]"
    by (rule placeholders_Job)
  then show "placeholders (sql (Job_buildFindAllSQLWithQueryString q)) =
      [1..<Suc (length (filter (\<lambda>kv. fst kv \<noteq> ''hasEquity'') q))]"
    by (simp add: values_Job)
next
  assume "''hasEquity'' \<in> fst ` set q \<and> fst ` set q \<subseteq> {''title'', ''minSalary'', ''hasEquity''}"
  then have "''hasEquity'' \<in> fst ` set q"
    by (rule conjunct1)
  then show "sublist '' equity > 0'' (sql (Job_buildFindAllSQLWithQueryString q))"
    by (rule sublist_Job_hasEquity)
qed

text \<open>The equity flag between the two parameterized keys.\<close>

theorem hasEquity_literal_predicate_witness:
  \<open>''hasEquity'' \<in> fst ` set [(''title'', JStr ''test''), (''hasEquity'', JBool True), (''minSalary'', JNum 75000)]
   \<and> fst ` set [(''title'', JStr ''test''), (''hasEquity'', JBool True), (''minSalary'', JNum 75000)]
       \<subseteq> {''title'', ''minSalary'', ''hasEquity''}
   \<and> values (Job_buildFindAllSQLWithQueryString
        [(''title'', JStr ''test''), (''hasEquity'', JBool True), (''minSalary'', JNum 75000)]) =
       [JStr ''test'', JNum 75000]
   \<and> placeholders (sql (Job_buildFindAllSQLWithQueryString
        [(''title'', JStr ''test''), (''hasEquity'', JBool True), (''minSalary'', JNum 75000)])) = [1, 2]
   \<and> sql (Job_buildFindAllSQLWithQueryString
        [(''title'', JStr ''test''), (''hasEquity'', JBool True), (''minSalary'', JNum 75000)]) =
       job_base_sql @
       '' WHERE  name ILIKE '%' || $1 || '%' AND  equity > 0 AND  salary >= $2 ORDER BY title''\<close>
proof -
  let ?q = "[(''title'', JStr ''test''), (''hasEquity'', JBool True), (''minSalary'', JNum 75000)]"
  have h: "''hasEquity'' \<in> fst ` set ?q \<and> fst ` set ?q \<subseteq> {''title'', ''minSalary'', ''hasEquity''}"
    by simp
  note t = hasEquity_literal_predicate [of _ _ ?q, THEN conjunct2, rule_format, OF h]
  from t have "values (Job_buildFindAllSQLWithQueryString ?q) =
      map snd (filter (\<lambda>kv. fst kv \<noteq> ''hasEquity'') ?q)"
    by (rule conjunct1)
  then have v: "values (Job_buildFindAllSQLWithQueryString ?q) = [JStr ''test'', JNum 75000]"
    by simp
  from t have "placeholders (sql (Job_buildFindAllSQLWithQueryString ?q)) =
      [1..<Suc (length (filter (\<lambda>kv. fst kv \<noteq> ''hasEquity'') ?q))]"
    by (elim conjE)
  then have p: "placeholders (sql (Job_buildFindAllSQLWithQueryString ?q)) = [1, 2]"
    by (simp add: upt_rec)
  have s: \<open>sql (Job_buildFindAllSQLWithQueryString ?q) =
       job_base_sql @
       '' WHERE  name ILIKE '%' || $1 || '%' AND  equity > 0 AND  salary >= $2 ORDER BY title''\<close>
    by (simp add: run_defs)
  from h v p s show ?thesis
    by (intro conjI) (simp_all only: simp_thms)
qed

section \<open>The empty filter\<close>

text \<open>
  C9. For the empty filter mapping each builder returns the fixed text up to the relation,
  directly followed by the fixed \<^verbatim>\<open>ORDER BY\<close> clause, and no bind values; the word
  \<^verbatim>\<open>WHERE\<close> does not occur anywhere in the statement.
\<close>

theorem empty_filter_no_where:
  "Job_buildFindAllSQLWithQueryString [] =
     \<lparr>values = [], sql = job_base_sql @ '' ORDER BY title''\<rparr>
   \<and> Company_buildFindAllSQLWithQueryString [] =
     \<lparr>values = [], sql = company_base_sql @ '' ORDER BY name''\<rparr>
   \<and> \<not> sublist ''WHERE'' (sql (Job_buildFindAllSQLWithQueryString []))
   \<and> \<not> sublist ''WHERE'' (sql (Company_buildFindAllSQLWithQueryString []))"
  by (simp add: run_defs job_base_sql_def company_base_sql_def sublist_Cons_right)

section \<open>The value of the equity flag\<close>

text \<open>
  C10. The builder of jobs looks at the presence of the key \<^verbatim>\<open>hasEquity\<close> and never at
  its value: replacing the value by any other one changes neither the statement nor the
  bind values, and whenever the key is present the literal clause \<^verbatim>\<open> equity > 0\<close> is in
  the statement. So \<^verbatim>\<open>{hasEquity: false}\<close> gives what \<^verbatim>\<open>{hasEquity: true}\<close> gives, the
  statement that restricts the jobs to those with equity above zero, with no bind value.
\<close>

theorem hasEquity_value_ignored:
  "Job_buildFindAllSQLWithQueryString (map (\<lambda>kv. if fst kv = ''hasEquity'' then (fst kv, w) else kv) q) =
     Job_buildFindAllSQLWithQueryString q
   \<and> (''hasEquity'' \<in> fst ` set q \<longrightarrow>
        sublist '' equity > 0'' (sql (Job_buildFindAllSQLWithQueryString q)))
   \<and> Job_buildFindAllSQLWithQueryString [(''hasEquity'', JBool False)] =
     Job_buildFindAllSQLWithQueryString [(''hasEquity'', JBool True)]
   \<and> Job_buildFindAllSQLWithQueryString [(''hasEquity'', JBool False)] =
     \<lparr>values = [], sql = job_base_sql @ '' WHERE  equity > 0 ORDER BY title''\<rparr>"
proof (intro conjI impI)
  show "Job_buildFindAllSQLWithQueryString
      (map (\<lambda>kv. if fst kv = ''hasEquity'' then (fst kv, w) else kv) q) =
     Job_buildFindAllSQLWithQueryString q"
    unfolding Job_buildFindAllSQLWithQueryString_def foldl_job_step_hasEquity_value ..
next
  assume "''hasEquity'' \<in> fst ` set q"
  then show "sublist '' equity > 0'' (sql (Job_buildFindAllSQLWithQueryString q))"
    by (rule sublist_Job_hasEquity)
next
  show "Job_buildFindAllSQLWithQueryString [(''hasEquity'', JBool False)] =
     Job_buildFindAllSQLWithQueryString [(''hasEquity'', JBool True)]"
    by (simp add: Job_buildFindAllSQLWithQueryString_def
        job_step_hasEquity_value [of _ "JBool False" "JBool True"])
next
  show "Job_buildFindAllSQLWithQueryString [(''hasEquity'', JBool False)] =
     \<lparr>values = [], sql = job_base_sql @ '' WHERE  equity > 0 ORDER BY title''\<rparr>"
    by (simp add: run_defs)
qed

theorem hasEquity_value_ignored_witness:
  "''hasEquity'' \<in> fst ` set [(''minSalary'', JNum 1), (''hasEquity'', JBool False)]
   \<and> sublist '' equity > 0''
       (sql (Job_buildFindAllSQLWithQueryString [(''minSalary'', JNum 1), (''hasEquity'', JBool False)]))"
proof -
  have h: "''hasEquity'' \<in> fst ` set [(''minSalary'', JNum 1), (''hasEquity'', JBool False)]"
    by simp
  from hasEquity_value_ignored [of _ "[(''minSalary'', JNum 1), (''hasEquity'', JBool False)]",
      THEN conjunct2, THEN conjunct1, rule_format, OF h] h
  show ?thesis
    by (intro conjI)
qed

end
